theory Spec2Isabelle
  imports Main "HOL-Library.List_Lexorder" "HOL-Library.Char_ord" "HOL-Library.AList"
begin

section \<open>Registry merger (marketplace\_updater.py)\<close>

text \<open>
  A marketplace plugin entry is a JSON object. The four keys the schema names are kept,
  each absent (\<open>None\<close>) or holding a string. Strings are byte lists (UTF-8), whose
  lexicographic order coincides with Python's code-point order on \<open>str\<close>. The
  registry schema types all four as strings.
\<close>

record plugin =
  name :: "string option"
  description :: "string option"
  source :: "string option"
  category :: "string option"

text \<open>Python truthiness of \<open>plugin.get('name')\<close>: present and not the empty string.\<close>

definition truthy :: "string option \<Rightarrow> bool" where
  "truthy v = (case v of None \<Rightarrow> False | Some s \<Rightarrow> s \<noteq> [])"

text \<open>
  \<open>plugins_dict\<close> is an insertion-ordered dictionary: an association list in which
  assigning to an occupied key replaces the value in place and assigning to a free key
  appends, which is what \<^const>\<open>AList.update\<close> does.
\<close>

type_synonym plugins_dict = "(string \<times> plugin) list"

text \<open>Body of the first loop: \<open>if name: plugins_dict[name] = plugin\<close>.\<close>

definition add_existing :: "plugins_dict \<Rightarrow> plugin \<Rightarrow> plugins_dict" where
  "add_existing d p =
     (case name p of
        None \<Rightarrow> d
      | Some n \<Rightarrow> if n \<noteq> [] then AList.update n p d else d)"

text \<open>Body of the second loop: an occupied name is skipped, a free one is inserted.\<close>

definition add_new :: "plugins_dict \<Rightarrow> plugin \<Rightarrow> plugins_dict" where
  "add_new d p =
     (case name p of
        None \<Rightarrow> d
      | Some n \<Rightarrow>
          if n \<noteq> [] then (if map_of d n \<noteq> None then d else AList.update n p d) else d)"

text \<open>The sort key \<open>lambda p: p.get('name', '')\<close>.\<close>

definition sort_name :: "plugin \<Rightarrow> string" where
  "sort_name p = (case name p of None \<Rightarrow> [] | Some n \<Rightarrow> n)"

definition merge_plugins :: "plugin list \<Rightarrow> plugin list \<Rightarrow> plugin list" where
  "merge_plugins existing_plugins new_plugins =
     sort_key sort_name
       (map snd (foldl add_new (foldl add_existing [] existing_plugins) new_plugins))"

text \<open>Auxiliary notions for the proofs about \<^const>\<open>merge_plugins\<close>: the dictionary
  before sorting, and the invariant that keys are unique and each value carries its key
  as a non-empty name.\<close>

definition merged_dict :: "plugin list \<Rightarrow> plugin list \<Rightarrow> plugins_dict" where
  "merged_dict A B = foldl add_new (foldl add_existing [] A) B"

definition dict_ok :: "plugins_dict \<Rightarrow> bool" where
  "dict_ok d = (distinct (map fst d) \<and> (\<forall>(k, p) \<in> set d. name p = Some k \<and> k \<noteq> []))"


section \<open>URL resolver (utils.py)\<close>

datatype error = ValueError | RequestError | FrontmatterError

text \<open>\<open>str.split(sep)\<close> for a one-character separator.\<close>

fun split :: "char \<Rightarrow> string \<Rightarrow> string list" where
  "split c [] = [[]]"
| "split c (x # xs) =
     (if x = c then [] # split c xs
      else (case split c xs of [] \<Rightarrow> [[x]] | w # ws \<Rightarrow> (x # w) # ws))"

text \<open>\<open>sep.join(parts)\<close>.\<close>

fun join :: "string \<Rightarrow> string list \<Rightarrow> string" where
  "join sep [] = []"
| "join sep [x] = x"
| "join sep (x # y # ys) = x @ sep @ join sep (y # ys)"

text \<open>\<open>[p for p in parsed.path.split('/') if p]\<close>\<close>

definition path_parts_of :: "string \<Rightarrow> string list" where
  "path_parts_of url_path = filter (\<lambda>p. p \<noteq> []) (split CHR ''/'' url_path)"

text \<open>
  \<open>parse_github_url\<close>. The argument is \<open>urlparse(url).path\<close>, the path component that
  the standard library extracts from the URL; the result is the tuple
  (owner, repo, branch, subfolder path) or the \<open>ValueError\<close> that the function raises.
\<close>

definition parse_github_url ::
  "string \<Rightarrow> error + (string \<times> string \<times> string \<times> string option)" where
  "parse_github_url url_path =
     (let path_parts = path_parts_of url_path in
      if length path_parts < 2 then Inl ValueError
      else
        let owner = path_parts ! 0;
            repo = path_parts ! 1
        in if length path_parts > 3 \<and> path_parts ! 2 = ''tree''
           then Inr (owner, repo, path_parts ! 3,
                     if length path_parts > 4 then Some (join ''/'' (drop 4 path_parts))
                     else None)
           else Inr (owner, repo, ''main'', None))"


section \<open>Content extractor (github\_fetcher.py)\<close>

subsection \<open>Whole-repository strategy\<close>

text \<open>Python's \<open>pattern in name\<close> on strings: \<open>pattern\<close> occurs as a contiguous substring.\<close>

fun startswith :: "string \<Rightarrow> string \<Rightarrow> bool" where
  "startswith s [] = True"
| "startswith [] (p # ps) = False"
| "startswith (x # xs) (p # ps) = (x = p \<and> startswith xs ps)"

fun contains :: "string \<Rightarrow> string \<Rightarrow> bool" where
  "contains [] pat = (pat = [])"
| "contains (x # xs) pat = (startswith (x # xs) pat \<or> contains xs pat)"

definition default_exclude_patterns :: "string list" where
  "default_exclude_patterns = [''.git'', ''.github'', ''__pycache__'', ''*.pyc'']"

text \<open>The inner loop over \<open>exclude_patterns\<close> that sets \<open>should_exclude\<close>.\<close>

definition should_exclude :: "string list \<Rightarrow> string \<Rightarrow> bool" where
  "should_exclude exclude_patterns member_name =
     list_ex (\<lambda>pattern. contains member_name pattern) exclude_patterns"

text \<open>
  One iteration of the loop over the archive's members; the accumulator is the list of
  paths extracted under the target directory so far.
\<close>

definition extract_member :: "string list \<Rightarrow> string \<Rightarrow> string list \<Rightarrow> string \<Rightarrow> string list" where
  "extract_member exclude_patterns root_dir extracted member_name =
     (if member_name = root_dir then extracted
      else if should_exclude exclude_patterns member_name then extracted
      else
        let stripped = drop (length root_dir + 1) member_name
        in if stripped \<noteq> [] then extracted @ [stripped] else extracted)"

text \<open>
  \<open>fetch_standalone_repo\<close>. The archive download is the argument: \<open>None\<close> when the request
  raises, otherwise the member names of the tarball in archive order. The result is the
  returned boolean and the paths extracted under the target directory.
\<close>

definition fetch_standalone_repo :: "string list \<Rightarrow> string list option \<Rightarrow> bool \<times> string list" where
  "fetch_standalone_repo exclude_patterns archive =
     (case archive of
        None \<Rightarrow> (False, [])
      | Some members \<Rightarrow>
          if members = [] then (False, [])
          else
            let root_dir = hd (split CHR ''/'' (hd members))
            in (True, foldl (extract_member exclude_patterns root_dir) [] members))"

subsection \<open>Subpath strategy\<close>

text \<open>
  What the Contents API holds below a path: a listing request either raises or yields
  items. A file item carries its name, its \<open>download_url\<close> and the body the download
  of that URL returns (\<open>None\<close> when the download raises); a directory item carries what listing it yields; any other item type
  (symlink, submodule) is ignored by the loop. A response that is a single object is
  the listing with that one item.
\<close>

datatype remote_dir = ListingError | Listing "remote_item list"
and remote_item =
    FileItem string string "string option"
  | DirItem string remote_dir
  | OtherItem string

text \<open>Observable actions, in program order.\<close>

datatype event =
    Throttle
  | ListingRequest string
  | DownloadRequest string
  | WriteBytes string
  | Mkdir string

text \<open>
  \<open>_fetch_contents_recursive\<close> and its loop over the listing. Arguments: the remote
  path, the local target directory and the remote content. A raised exception leaves
  the loop and makes the enclosing invocation return \<open>False\<close>; the value returned by the
  recursive call on a directory item is not used.
\<close>

fun fetch_contents_recursive :: "string \<Rightarrow> string \<Rightarrow> remote_dir \<Rightarrow> bool \<times> event list"
  and fetch_items :: "string \<Rightarrow> string \<Rightarrow> remote_item list \<Rightarrow> bool \<times> event list" where
  "fetch_contents_recursive path target_dir ListingError = (False, [ListingRequest path])"
| "fetch_contents_recursive path target_dir (Listing contents) =
     (let (ok, evs) = fetch_items path target_dir contents
      in (ok, ListingRequest path # evs))"
| "fetch_items path target_dir [] = (True, [])"
| "fetch_items path target_dir (FileItem item_name download_url None # rest) =
     (False, [Throttle, DownloadRequest download_url])"
| "fetch_items path target_dir (FileItem item_name download_url (Some body) # rest) =
     (let (ok, evs) = fetch_items path target_dir rest
      in (ok, [Throttle, DownloadRequest download_url,
               WriteBytes (target_dir @ ''/'' @ item_name)] @ evs))"
| "fetch_items path target_dir (DirItem item_name sub # rest) =
     (let (sub_ok, sub_evs) =
            fetch_contents_recursive (path @ ''/'' @ item_name) (target_dir @ ''/'' @ item_name) sub;
          (ok, evs) = fetch_items path target_dir rest
      in (ok, Mkdir (target_dir @ ''/'' @ item_name) # sub_evs @ evs))"
| "fetch_items path target_dir (OtherItem item_name # rest) = fetch_items path target_dir rest"

text \<open>\<open>fetch_subfolder\<close>: one throttle check, then the traversal.\<close>

definition fetch_subfolder :: "string \<Rightarrow> string \<Rightarrow> remote_dir \<Rightarrow> bool \<times> event list" where
  "fetch_subfolder subfolder_path target_dir remote =
     (let (ok, evs) = fetch_contents_recursive subfolder_path target_dir remote
      in (ok, Throttle # Mkdir target_dir # evs))"

text \<open>The requests that count against the quota.\<close>

fun quota_consuming :: "event \<Rightarrow> bool" where
  "quota_consuming (ListingRequest p) = True"
| "quota_consuming (DownloadRequest p) = True"
| "quota_consuming e = False"

text \<open>
  The throttling discipline of the specification, as a check on a trace: every
  quota-consuming request is preceded by a throttle check made after the previous
  quota-consuming request. The flag says whether such a check is pending.
\<close>

fun throttled :: "bool \<Rightarrow> event list \<Rightarrow> bool" where
  "throttled pending [] = True"
| "throttled pending (Throttle # evs) = throttled True evs"
| "throttled pending (ListingRequest p # evs) = (pending \<and> throttled False evs)"
| "throttled pending (DownloadRequest p # evs) = (pending \<and> throttled False evs)"
| "throttled pending (WriteBytes p # evs) = throttled pending evs"
| "throttled pending (Mkdir p # evs) = throttled pending evs"


section \<open>Package validator (skill\_processor.py)\<close>

type_synonym frontmatter_dict = "(string \<times> string) list"

text \<open>
  What validation reads of a \<open>SKILL.md\<close> file: the mapping that \<open>frontmatter.load\<close>
  returns (\<open>None\<close> when it raises) and the size in bytes that \<open>stat\<close> reports.
\<close>

record skill_md =
  frontmatter :: "frontmatter_dict option"
  st_size :: nat

text \<open>A path holds a regular file or a directory, which may contain a \<open>SKILL.md\<close>.\<close>

datatype fs_node = RegularFile | Directory "skill_md option"

text \<open>The messages appended to the error and warning lists.\<close>

datatype message =
    DirectoryMissing
  | NotADirectory
  | ManifestMissing
  | MissingName
  | MissingDescription
  | EmptyManifest
  | VerySmall nat
  | ParseFailed

record validation =
  valid :: bool
  errors :: "message list"
  warnings :: "message list"
  metadata :: "frontmatter_dict option"

definition frontmatter_load :: "skill_md \<Rightarrow> error + frontmatter_dict" where
  "frontmatter_load md =
     (case frontmatter md of None \<Rightarrow> Inl FrontmatterError | Some m \<Rightarrow> Inr m)"

text \<open>
  \<open>parse_skill_frontmatter\<close>: the \<open>except\<close> clause turns every exception of the load
  into the empty dictionary, so no exception leaves this function.
\<close>

definition parse_skill_frontmatter :: "skill_md \<Rightarrow> error + frontmatter_dict" where
  "parse_skill_frontmatter md =
     (case frontmatter_load md of Inl e \<Rightarrow> Inr [] | Inr m \<Rightarrow> Inr m)"

text \<open>Truthiness of \<open>metadata.get(key)\<close>.\<close>

definition has_value :: "frontmatter_dict \<Rightarrow> string \<Rightarrow> bool" where
  "has_value m key = truthy (map_of m key)"

text \<open>
  \<open>validate_skill\<close>, on what the file system holds at \<open>skill_path\<close> (\<open>None\<close>: nothing
  there). The \<open>Inl\<close> branch is the \<open>except\<close> clause around the parsing.
\<close>

definition validate_skill :: "fs_node option \<Rightarrow> validation" where
  "validate_skill node =
     (let result = \<lparr>valid = False, errors = [], warnings = [], metadata = None\<rparr> in
      case node of
        None \<Rightarrow> result\<lparr>errors := [DirectoryMissing]\<rparr>
      | Some RegularFile \<Rightarrow> result\<lparr>errors := [NotADirectory]\<rparr>
      | Some (Directory None) \<Rightarrow> result\<lparr>errors := [ManifestMissing]\<rparr>
      | Some (Directory (Some md)) \<Rightarrow>
          (case parse_skill_frontmatter md of
             Inl e \<Rightarrow> result\<lparr>errors := [ParseFailed]\<rparr>
           | Inr m \<Rightarrow>
               let w1 = (if \<not> has_value m ''name'' then [MissingName] else []);
                   w2 = (if \<not> has_value m ''description'' then [MissingDescription] else []);
                   file_size = st_size md
               in if file_size = 0
                  then result\<lparr>metadata := Some m, warnings := w1 @ w2,
                              errors := [EmptyManifest]\<rparr>
                  else result\<lparr>metadata := Some m,
                              warnings := w1 @ w2
                                @ (if file_size < 50 then [VerySmall file_size] else []),
                              valid := True\<rparr>))"


section \<open>Orchestrator (fetch\_external\_skills.py)\<close>

record skill_config =
  sid :: string
  target_folder :: string
  github_url :: string
  repo_type :: string
  cfg_description :: "string option"
  cfg_category :: "string option"

record skill_meta =
  meta_name :: string
  meta_description :: string
  meta_category :: string

text \<open>\<open>dict.get(key, default)\<close> on an optional configuration key.\<close>

definition get_default :: "string option \<Rightarrow> string \<Rightarrow> string" where
  "get_default v dflt = (case v of None \<Rightarrow> dflt | Some x \<Rightarrow> x)"

text \<open>\<open>normalize_skill_metadata\<close>: the frontmatter description, when truthy, overrides
  the configured one; the name stays the configured id.\<close>

definition normalize_skill_metadata :: "skill_config \<Rightarrow> frontmatter_dict option \<Rightarrow> skill_meta" where
  "normalize_skill_metadata skill_config parsed_metadata =
     (let m = \<lparr>meta_name = sid skill_config,
                meta_description = get_default (cfg_description skill_config) [],
                meta_category = get_default (cfg_category skill_config) []\<rparr>
      in case parsed_metadata of
           None \<Rightarrow> m
         | Some pm \<Rightarrow>
             if pm \<noteq> [] \<and> has_value pm ''description''
             then m\<lparr>meta_description := the (map_of pm ''description'')\<rparr>
             else m)"

datatype failure = GitHubFetchFailed | ValidationFailed "message list" | RemoveFailed

record run_stats =
  total :: nat
  successful :: nat
  failed :: nat
  skipped :: nat
  error_log :: "(string \<times> failure) list"

definition initial_stats :: run_stats where
  "initial_stats = \<lparr>total = 0, successful = 0, failed = 0, skipped = 0, error_log = []\<rparr>"

text \<open>
  The state the orchestrator mutates: the output directory, as a map from folder name
  to what is there, and the statistics.
\<close>

record fetcher_state =
  disk :: "string \<Rightarrow> fs_node option"
  stats :: run_stats

text \<open>
  The remote side of \<open>GitHubFetcher.fetch_skill\<close> for one package: the returned boolean
  and the \<open>SKILL.md\<close> (if any) that the temporary directory holds afterwards.
\<close>

type_synonym github = "skill_config \<Rightarrow> bool \<times> skill_md option"

text \<open>\<open>SkillFetcher.fetch_skill\<close>. The temporary directory exists only inside the call
  and is removed or moved before it returns. Before the move an existing target is
  removed with \<open>shutil.rmtree\<close>, which raises when the target is a regular file; the
  \<open>except\<close> clause then counts the package as failed and leaves the target as it is.
  Removing a directory and moving the temporary directory are taken to succeed.\<close>

definition fetch_skill ::
  "bool \<Rightarrow> bool \<Rightarrow> github \<Rightarrow> skill_config \<Rightarrow> fetcher_state \<Rightarrow> bool \<times> fetcher_state" where
  "fetch_skill force dry_run fetcher skill_config st =
     (if disk st (target_folder skill_config) \<noteq> None \<and> \<not> force
      then (True, st\<lparr>stats := (stats st)\<lparr>skipped := skipped (stats st) + 1\<rparr>\<rparr>)
      else if dry_run then (True, st)
      else
        let (success, staged) = fetcher skill_config in
        if \<not> success
        then (False, st\<lparr>stats := (stats st)
                \<lparr>error_log := error_log (stats st) @ [(sid skill_config, GitHubFetchFailed)],
                 failed := failed (stats st) + 1\<rparr>\<rparr>)
        else
          let validation = validate_skill (Some (Directory staged)) in
          if \<not> valid validation
          then (False, st\<lparr>stats := (stats st)
                  \<lparr>error_log := error_log (stats st)
                     @ [(sid skill_config, ValidationFailed (errors validation))],
                   failed := failed (stats st) + 1\<rparr>\<rparr>)
          else if disk st (target_folder skill_config) = Some RegularFile
          then (False, st\<lparr>stats := (stats st)
                  \<lparr>error_log := error_log (stats st) @ [(sid skill_config, RemoveFailed)],
                   failed := failed (stats st) + 1\<rparr>\<rparr>)
          else (True, st\<lparr>disk := (disk st)(target_folder skill_config \<mapsto> Directory staged),
                         stats := (stats st)\<lparr>successful := successful (stats st) + 1\<rparr>\<rparr>))"

text \<open>Body of the loop of \<open>fetch_all_skills\<close>; \<open>skill_metadata\<close> is the dictionary
  from skill ids to normalised metadata.\<close>

definition process_skill ::
  "bool \<Rightarrow> bool \<Rightarrow> github \<Rightarrow> (string \<times> skill_meta) list \<times> fetcher_state \<Rightarrow> skill_config
     \<Rightarrow> (string \<times> skill_meta) list \<times> fetcher_state" where
  "process_skill force dry_run fetcher acc skill_config =
     (let (skill_metadata, st) = acc;
          (success, st') = fetch_skill force dry_run fetcher skill_config st
      in if success
         then (case disk st' (target_folder skill_config) of
                 None \<Rightarrow> (skill_metadata, st')
               | Some node \<Rightarrow>
                   let validation = validate_skill (Some node) in
                   if valid validation
                   then (AList.update (sid skill_config)
                           (normalize_skill_metadata skill_config (metadata validation))
                           skill_metadata, st')
                   else (skill_metadata, st'))
         else (skill_metadata, st'))"

definition fetch_all_skills ::
  "bool \<Rightarrow> bool \<Rightarrow> github \<Rightarrow> skill_config list \<Rightarrow> fetcher_state
     \<Rightarrow> (string \<times> skill_meta) list \<times> fetcher_state" where
  "fetch_all_skills force dry_run fetcher skills st =
     foldl (process_skill force dry_run fetcher)
       ([], st\<lparr>stats := (stats st)\<lparr>total := length skills\<rparr>\<rparr>) skills"

text \<open>\<open>check_conflicts\<close>: the target folders that already exist, unless forced.\<close>

definition check_conflicts :: "bool \<Rightarrow> fetcher_state \<Rightarrow> skill_config list \<Rightarrow> string list" where
  "check_conflicts force st skills =
     map target_folder
       (filter (\<lambda>skill. disk st (target_folder skill) \<noteq> None \<and> \<not> force) skills)"

text \<open>
  \<open>SkillFetcher.run\<close>, after the configuration has been loaded and the environment
  validated (either failing returns exit code 1 before anything else happens).
  \<open>skill_ids\<close> is the optional selection. The result is the exit code, the batch of
  metadata handed to the marketplace update (\<open>None\<close> when the update is not reached or
  not made) and the final state.
\<close>

definition run ::
  "bool \<Rightarrow> bool \<Rightarrow> github \<Rightarrow> skill_config list \<Rightarrow> string list option \<Rightarrow> fetcher_state
     \<Rightarrow> nat \<times> (string \<times> skill_meta) list option \<times> fetcher_state" where
  "run force dry_run fetcher all_skills skill_ids st =
     (let selected = (case skill_ids of
                        None \<Rightarrow> Some all_skills
                      | Some ids \<Rightarrow>
                          if ids = [] then Some all_skills
                          else
                            let chosen = filter (\<lambda>s. sid s \<in> set ids) all_skills
                            in if chosen = [] then None else Some chosen)
      in case selected of
           None \<Rightarrow> (1, None, st)
         | Some skills_to_fetch \<Rightarrow>
             if check_conflicts force st skills_to_fetch \<noteq> [] \<and> \<not> force
             then (1, None, st)
             else
               let (skill_metadata, st') = fetch_all_skills force dry_run fetcher skills_to_fetch st
               in (if failed (stats st') = 0 then 0 else 1,
                   if skill_metadata \<noteq> [] \<and> \<not> dry_run then Some skill_metadata else None,
                   st'))"


subsection \<open>A two-package scenario\<close>

text \<open>
  Two configured packages; the output directory already holds the target folder of the
  first, with a well-formed manifest; the remote side delivers a well-formed manifest
  for whatever is fetched.
\<close>

definition alpha_manifest :: skill_md where
  "alpha_manifest =
     \<lparr>frontmatter = Some [(''name'', ''alpha''), (''description'', ''Alpha skill'')],
      st_size = 200\<rparr>"

definition beta_manifest :: skill_md where
  "beta_manifest =
     \<lparr>frontmatter = Some [(''name'', ''beta''), (''description'', ''Beta skill'')],
      st_size = 300\<rparr>"

definition alpha_config :: skill_config where
  "alpha_config =
     \<lparr>sid = ''alpha'', target_folder = ''alpha-skill'',
      github_url = ''https://github.com/owner/alpha'', repo_type = ''standalone'',
      cfg_description = Some ''Alpha from config'', cfg_category = None\<rparr>"

definition beta_config :: skill_config where
  "beta_config =
     \<lparr>sid = ''beta'', target_folder = ''beta-skill'',
      github_url = ''https://github.com/owner/beta'', repo_type = ''standalone'',
      cfg_description = Some ''Beta from config'', cfg_category = Some ''tools''\<rparr>"

definition scenario_github :: github where
  "scenario_github skill_config = (True, Some beta_manifest)"

definition scenario_state :: fetcher_state where
  "scenario_state =
     \<lparr>disk = [''alpha-skill'' \<mapsto> Directory (Some alpha_manifest)], stats = initial_stats\<rparr>"





section \<open>Properties of the registry merger\<close>

lemma set_update_cases:
  "x \<in> set (AList.update k v al) \<Longrightarrow> x = (k, v) \<or> x \<in> set al"
  by (induction al) (auto split: if_splits)

lemma dict_ok_update:
  assumes "dict_ok d" "name p = Some n" "n \<noteq> []"
  shows "dict_ok (AList.update n p d)"
  using assms unfolding dict_ok_def
  by (auto simp: distinct_update dest!: set_update_cases)

lemma dict_ok_add_existing: "dict_ok d \<Longrightarrow> dict_ok (add_existing d p)"
  by (auto simp: add_existing_def dict_ok_update split: option.splits)

lemma dict_ok_add_new: "dict_ok d \<Longrightarrow> dict_ok (add_new d p)"
  by (auto simp: add_new_def dict_ok_update split: option.splits)

lemma dict_ok_foldl_existing: "dict_ok d \<Longrightarrow> dict_ok (foldl add_existing d xs)"
  by (induction xs arbitrary: d) (simp_all add: dict_ok_add_existing)

lemma dict_ok_foldl_new: "dict_ok d \<Longrightarrow> dict_ok (foldl add_new d xs)"
  by (induction xs arbitrary: d) (simp_all add: dict_ok_add_new)

lemma dict_ok_Nil: "dict_ok []"
  by (simp add: dict_ok_def)

lemma dict_ok_merged: "dict_ok (merged_dict A B)"
  by (simp add: merged_dict_def dict_ok_foldl_new dict_ok_foldl_existing dict_ok_Nil)

lemma merge_plugins_dict: "merge_plugins A B = sort_key sort_name (map snd (merged_dict A B))"
  by (simp add: merge_plugins_def merged_dict_def)

lemma dict_ok_sort_name: "dict_ok d \<Longrightarrow> map sort_name (map snd d) = map fst d"
  by (induction d) (auto simp: dict_ok_def sort_name_def)

lemma dict_ok_names: "dict_ok d \<Longrightarrow> map name (map snd d) = map Some (map fst d)"
  by (induction d) (auto simp: dict_ok_def)

lemma dict_ok_truthy: "dict_ok d \<Longrightarrow> p \<in> set (map snd d) \<Longrightarrow> truthy (name p)"
  by (auto simp: dict_ok_def truthy_def)

lemma distinct_map_sort_key:
  "distinct (map g (sort_key f xs)) = distinct (map g xs)"
  by (simp add: distinct_map)

lemma merge_sorted: "sorted (map sort_name (merge_plugins A B))"
  by (simp add: merge_plugins_dict)

lemma merge_distinct_keys: "distinct (map sort_name (merge_plugins A B))"
  using dict_ok_merged[of A B]
  by (simp add: merge_plugins_dict distinct_map_sort_key dict_ok_sort_name dict_ok_def del: map_map)

lemma merge_distinct_names: "distinct (map name (merge_plugins A B))"
proof -
  have ok: "dict_ok (merged_dict A B)" by (rule dict_ok_merged)
  then have "distinct (map fst (merged_dict A B))" by (simp add: dict_ok_def)
  then have "distinct (map Some (map fst (merged_dict A B)))"
    by (simp only: distinct_map) (auto simp: inj_on_def)
  then have "distinct (map name (map snd (merged_dict A B)))"
    by (simp only: dict_ok_names[OF ok])
  then show ?thesis
    by (simp only: merge_plugins_dict distinct_map_sort_key)
qed

lemma merge_truthy: "p \<in> set (merge_plugins A B) \<Longrightarrow> truthy (name p)"
  using dict_ok_merged[of A B] dict_ok_truthy[of "merged_dict A B" p]
  by (simp add: merge_plugins_dict)

lemma update_absent: "k \<notin> fst ` set al \<Longrightarrow> AList.update k v al = al @ [(k, v)]"
  by (induction al) auto

lemma foldl_existing_fresh:
  assumes "\<forall>p \<in> set xs. truthy (name p)" "distinct (map sort_name xs)"
    "sort_name ` set xs \<inter> fst ` set d = {}"
  shows "foldl add_existing d xs = d @ map (\<lambda>p. (sort_name p, p)) xs"
  using assms
proof (induction xs arbitrary: d)
  case Nil
  then show ?case by simp
next
  case (Cons p xs)
  from Cons.prems obtain n where n: "name p = Some n" "n \<noteq> []"
    by (auto simp: truthy_def split: option.splits)
  then have sn: "sort_name p = n" by (simp add: sort_name_def)
  have step: "add_existing d p = d @ [(n, p)]"
    using Cons.prems(3) n sn by (simp add: add_existing_def update_absent)
  have "foldl add_existing (d @ [(n, p)]) xs = (d @ [(n, p)]) @ map (\<lambda>p. (sort_name p, p)) xs"
    using Cons.prems sn by (intro Cons.IH) auto
  then show ?case using step sn by simp
qed

lemma add_new_occupied:
  "(truthy (name p) \<Longrightarrow> sort_name p \<in> fst ` set d) \<Longrightarrow> add_new d p = d"
  by (auto simp: add_new_def truthy_def sort_name_def map_of_eq_None_iff split: option.splits)

lemma foldl_new_occupied:
  "(\<And>p. p \<in> set xs \<Longrightarrow> truthy (name p) \<Longrightarrow> sort_name p \<in> fst ` set d)
    \<Longrightarrow> foldl add_new d xs = d"
  by (induction xs) (simp_all add: add_new_occupied)

lemma keys_add_existing_mono: "fst ` set d \<subseteq> fst ` set (add_existing d p)"
  by (auto simp: add_existing_def dom_update split: option.splits)

lemma keys_add_new_mono: "fst ` set d \<subseteq> fst ` set (add_new d p)"
  by (auto simp: add_new_def dom_update split: option.splits)

lemma keys_foldl_existing_mono: "fst ` set d \<subseteq> fst ` set (foldl add_existing d xs)"
proof (induction xs arbitrary: d)
  case (Cons p xs)
  show ?case using keys_add_existing_mono[of d p] Cons[of "add_existing d p"] by auto
qed simp

lemma keys_foldl_new_mono: "fst ` set d \<subseteq> fst ` set (foldl add_new d xs)"
proof (induction xs arbitrary: d)
  case (Cons p xs)
  show ?case using keys_add_new_mono[of d p] Cons[of "add_new d p"] by auto
qed simp

lemma keys_foldl_existing:
  "p \<in> set xs \<Longrightarrow> truthy (name p) \<Longrightarrow> sort_name p \<in> fst ` set (foldl add_existing d xs)"
proof (induction xs arbitrary: d)
  case (Cons q xs)
  show ?case
  proof (cases "p = q")
    case True
    with Cons.prems have "sort_name p \<in> fst ` set (add_existing d q)"
      by (auto simp: add_existing_def truthy_def sort_name_def dom_update split: option.splits)
    then show ?thesis using keys_foldl_existing_mono[of "add_existing d q" xs] by auto
  next
    case False
    then show ?thesis using Cons by auto
  qed
qed simp

lemma keys_merged_existing:
  "p \<in> set A \<Longrightarrow> truthy (name p) \<Longrightarrow> sort_name p \<in> fst ` set (merged_dict A B)"
  using keys_foldl_existing[of p A "[]"] keys_foldl_new_mono[of "foldl add_existing [] A" B]
  by (auto simp: merged_dict_def)

lemma merge_again: "merge_plugins (merge_plugins A B) A = merge_plugins A B"
proof -
  let ?M = "merge_plugins A B"
  let ?D = "map (\<lambda>p. (sort_name p, p)) ?M"
  have d1: "foldl add_existing [] ?M = ?D"
    using foldl_existing_fresh[of ?M "[]"] merge_truthy[of _ A B] merge_distinct_keys[of A B]
    by simp
  have keys: "fst ` set ?D = fst ` set (merged_dict A B)"
    using dict_ok_sort_name[OF dict_ok_merged[of A B]]
    by (simp add: merge_plugins_dict image_image)
  have d2: "foldl add_new ?D A = ?D"
    by (rule foldl_new_occupied) (simp only: keys keys_merged_existing)
  have "merge_plugins ?M A = sort_key sort_name (map snd ?D)"
    by (simp only: merge_plugins_def[of ?M A] d1 d2)
  also have "map snd ?D = ?M" by (simp add: comp_def)
  also have "sort_key sort_name ?M = ?M"
    by (rule sort_key_id_if_sorted) (rule merge_sorted)
  finally show ?thesis .
qed

lemma map_of_add_existing:
  "map_of (add_existing d p) n = (if name p = Some n \<and> n \<noteq> [] then Some p else map_of d n)"
  by (auto simp: add_existing_def update_conv' split: option.splits)

lemma map_of_foldl_existing:
  "n \<noteq> [] \<Longrightarrow> map_of (foldl add_existing d xs) n =
     (if filter (\<lambda>q. name q = Some n) xs = [] then map_of d n
      else Some (last (filter (\<lambda>q. name q = Some n) xs)))"
  by (induction xs rule: rev_induct) (simp_all add: map_of_add_existing)

lemma map_of_add_new_keep: "map_of d n = Some p \<Longrightarrow> map_of (add_new d q) n = Some p"
  by (auto simp: add_new_def update_conv' split: option.splits)

lemma map_of_foldl_new_keep: "map_of d n = Some p \<Longrightarrow> map_of (foldl add_new d xs) n = Some p"
  by (induction xs arbitrary: d) (simp_all add: map_of_add_new_keep)

lemma filter_name_dict:
  "dict_ok d \<Longrightarrow> filter (\<lambda>q. name q = Some n) (map snd d) =
     (case map_of d n of None \<Rightarrow> [] | Some p \<Rightarrow> [p])"
proof (induction d)
  case Nil
  then show ?case by simp
next
  case (Cons kp d)
  obtain k p where kp: "kp = (k, p)" by (cases kp)
  from Cons.prems kp have ok: "dict_ok d" and nm: "name p = Some k" and fresh: "k \<notin> fst ` set d"
    by (auto simp: dict_ok_def)
  show ?case
  proof (cases "k = n")
    case True
    with fresh have "map_of d n = None" by (simp add: map_of_eq_None_iff)
    with Cons.IH[OF ok] True nm kp show ?thesis by simp
  next
    case False
    with Cons.IH[OF ok] nm kp show ?thesis by simp
  qed
qed

lemma merge_existing_last:
  assumes "p \<in> set A" "truthy (name p)"
  shows "filter (\<lambda>q. name q = name p) (merge_plugins A B)
           = [last (filter (\<lambda>q. name q = name p) A)]"
proof -
  from assms(2) obtain n where n: "name p = Some n" "n \<noteq> []"
    by (auto simp: truthy_def split: option.splits)
  let ?l = "last (filter (\<lambda>q. name q = Some n) A)"
  from assms(1) n have "filter (\<lambda>q. name q = Some n) A \<noteq> []"
    by (auto simp: filter_empty_conv)
  then have "map_of (foldl add_existing [] A) n = Some ?l"
    using n by (simp add: map_of_foldl_existing)
  then have "map_of (merged_dict A B) n = Some ?l"
    unfolding merged_dict_def by (rule map_of_foldl_new_keep)
  then have "filter (\<lambda>q. name q = Some n) (map snd (merged_dict A B)) = [?l]"
    using filter_name_dict[OF dict_ok_merged, of n A B] by simp
  then show ?thesis
    by (simp add: merge_plugins_dict filter_sort n)
qed

lemma keys_add_existing:
  "fst ` set (add_existing d p) = fst ` set d \<union> (if truthy (name p) then {sort_name p} else {})"
  by (auto simp: add_existing_def dom_update truthy_def sort_name_def split: option.splits)

lemma keys_add_new:
  "fst ` set (add_new d p) = fst ` set d \<union> (if truthy (name p) then {sort_name p} else {})"
  by (auto simp: add_new_def dom_update truthy_def sort_name_def map_of_eq_None_iff
      split: option.splits)

lemma keys_foldl_existing_eq:
  "fst ` set (foldl add_existing d xs) = fst ` set d \<union> sort_name ` {p \<in> set xs. truthy (name p)}"
  by (induction xs rule: rev_induct) (auto simp: keys_add_existing)

lemma keys_foldl_new_eq:
  "fst ` set (foldl add_new d xs) = fst ` set d \<union> sort_name ` {p \<in> set xs. truthy (name p)}"
  by (induction xs rule: rev_induct) (auto simp: keys_add_new)

lemma truthy_sort_name: "truthy (name p) \<Longrightarrow> Some (sort_name p) = name p"
  by (auto simp: truthy_def sort_name_def split: option.splits)

lemma merge_names:
  "set (map name (merge_plugins A B)) = set (filter truthy (map name (A @ B)))"
proof -
  have "set (map name (merge_plugins A B)) = Some ` fst ` set (merged_dict A B)"
    using dict_ok_names[OF dict_ok_merged[of A B]]
    by (simp add: merge_plugins_dict image_image)
  also have "fst ` set (merged_dict A B) = sort_name ` {p \<in> set (A @ B). truthy (name p)}"
    by (auto simp: merged_dict_def keys_foldl_new_eq keys_foldl_existing_eq)
  also have "Some ` sort_name ` {p \<in> set (A @ B). truthy (name p)}
               = set (filter truthy (map name (A @ B)))"
  proof -
    have "Some ` sort_name ` {p \<in> set (A @ B). truthy (name p)}
            = name ` {p \<in> set (A @ B). truthy (name p)}"
      unfolding image_image by (rule image_cong) (auto simp: truthy_sort_name)
    also have "\<dots> = set (filter truthy (map name (A @ B)))"
      by auto
    finally show ?thesis .
  qed
  finally show ?thesis .
qed


text \<open>
  C6. For every pair of input lists, in any order, the output of \<open>merge_plugins\<close> is
  sorted by name (the sort key of the source) and no name occurs twice in it.
\<close>

theorem merge_plugins_sorted_unique:
  "sorted (map sort_name (merge_plugins A B))
   \<and> distinct (map sort_name (merge_plugins A B))
   \<and> distinct (map name (merge_plugins A B))"
  by (simp only: merge_sorted merge_distinct_keys merge_distinct_names)

text \<open>
  C5, as the specification states it, fails: merging a list with itself does not keep
  the names of the list when one of them is the empty string, because the guard
  \<open>if name:\<close> drops that entry.
\<close>

theorem merge_self_names_counterexample:
  "set (map name (merge_plugins
          [\<lparr>name = Some [], description = Some ''d'', source = Some ''./s'', category = Some ''c''\<rparr>]
          [\<lparr>name = Some [], description = Some ''d'', source = Some ''./s'', category = Some ''c''\<rparr>]))
   \<noteq> set (map name
          [\<lparr>name = Some [], description = Some ''d'', source = Some ''./s'', category = Some ''c''\<rparr>])"
  by (simp add: merge_plugins_def add_existing_def add_new_def)

text \<open>
  C5, amended. Merging a list with itself yields exactly the names of the list that are
  present and non-empty; and merging the result of \<open>merge_plugins A B\<close> with \<open>A\<close> again
  yields \<open>merge_plugins A B\<close> unchanged.
\<close>

theorem merge_plugins_idempotent:
  "set (map name (merge_plugins X X)) = set (filter truthy (map name X))
   \<and> merge_plugins (merge_plugins A B) A = merge_plugins A B"
  using merge_names[of X X] by (simp add: merge_again)

text \<open>
  C10. Every entry of the merged output has a name that is present and non-empty, so an
  entry of either input list without such a name never appears; and for an existing
  entry with such a name, the output holds exactly one entry of that name, the last one
  of that name in the existing list.
\<close>

theorem merge_plugins_drops_unnamed:
  "(\<forall>p \<in> set (merge_plugins A B). truthy (name p))
   \<and> (\<forall>p \<in> set A. truthy (name p) \<longrightarrow>
         filter (\<lambda>q. name q = name p) (merge_plugins A B)
           = [last (filter (\<lambda>q. name q = name p) A)])"
  using merge_truthy[of _ A B] merge_existing_last[of _ A B] by blast

theorem merge_plugins_drops_unnamed_witness:
  "\<lparr>name = Some ''a'', description = Some ''new'', source = None, category = None\<rparr>
     \<in> set [\<lparr>name = Some ''a'', description = Some ''old'', source = None, category = None\<rparr>,
           \<lparr>name = None, description = Some ''x'', source = None, category = None\<rparr>,
           \<lparr>name = Some ''a'', description = Some ''new'', source = None, category = None\<rparr>]
   \<and> truthy (name \<lparr>name = Some ''a'', description = Some ''new'', source = None, category = None\<rparr>)
   \<and> \<lparr>name = Some ''a'', description = Some ''new'', source = None, category = None\<rparr>
     \<in> set (merge_plugins
          [\<lparr>name = Some ''a'', description = Some ''old'', source = None, category = None\<rparr>,
           \<lparr>name = None, description = Some ''x'', source = None, category = None\<rparr>,
           \<lparr>name = Some ''a'', description = Some ''new'', source = None, category = None\<rparr>]
          [\<lparr>name = Some [], description = Some ''y'', source = None, category = None\<rparr>])
   \<and> filter (\<lambda>q. name q = Some ''a'')
        (merge_plugins
          [\<lparr>name = Some ''a'', description = Some ''old'', source = None, category = None\<rparr>,
           \<lparr>name = None, description = Some ''x'', source = None, category = None\<rparr>,
           \<lparr>name = Some ''a'', description = Some ''new'', source = None, category = None\<rparr>]
          [\<lparr>name = Some [], description = Some ''y'', source = None, category = None\<rparr>])
      = [\<lparr>name = Some ''a'', description = Some ''new'', source = None, category = None\<rparr>]"
proof -
  have m: "merge_plugins
          [\<lparr>name = Some ''a'', description = Some ''old'', source = None, category = None\<rparr>,
           \<lparr>name = None, description = Some ''x'', source = None, category = None\<rparr>,
           \<lparr>name = Some ''a'', description = Some ''new'', source = None, category = None\<rparr>]
          [\<lparr>name = Some [], description = Some ''y'', source = None, category = None\<rparr>]
      = [\<lparr>name = Some ''a'', description = Some ''new'', source = None, category = None\<rparr>]"
    by (simp add: merge_plugins_def add_existing_def add_new_def)
  show ?thesis
    using merge_plugins_drops_unnamed
      [of "[\<lparr>name = Some ''a'', description = Some ''old'', source = None, category = None\<rparr>,
           \<lparr>name = None, description = Some ''x'', source = None, category = None\<rparr>,
           \<lparr>name = Some ''a'', description = Some ''new'', source = None, category = None\<rparr>]"
          "[\<lparr>name = Some [], description = Some ''y'', source = None, category = None\<rparr>]"]
    by (simp add: m truthy_def)
qed


section \<open>Properties of the URL resolver\<close>

text \<open>
  C7, as the specification states it, fails on a path of exactly three segments whose
  third segment is \<open>tree\<close>: there is no segment after the marker, the guard
  \<open>len(path_parts) > 3\<close> is false, and the branch is the placeholder.
\<close>

theorem parse_github_url_tree_counterexample:
  "path_parts_of ''/obra/superpowers/tree'' ! 2 = ''tree''
   \<and> drop 3 (path_parts_of ''/obra/superpowers/tree'') = []
   \<and> parse_github_url ''/obra/superpowers/tree'' = Inr (''obra'', ''superpowers'', ''main'', None)"
  by (simp add: parse_github_url_def path_parts_of_def)

text \<open>
  C7, amended. With fewer than two non-empty segments the resolver fails with the
  \<open>ValueError\<close>; with at least two, owner and repo are the first two segments. When there
  are at least four segments and the segment at index 2 is \<open>tree\<close>, the branch is the
  segment at index 3 and the subpath is the remaining segments joined with a slash,
  \<open>None\<close> when none remain. In every other case with at least two segments the branch is
  \<open>main\<close> and the subpath is \<open>None\<close>.
\<close>

theorem parse_github_url_resolves:
  "(length (path_parts_of u) < 2 \<longrightarrow> parse_github_url u = Inl ValueError)
   \<and> (2 \<le> length (path_parts_of u) \<longrightarrow>
        (\<exists>branch subfolder_path.
           parse_github_url u
             = Inr (path_parts_of u ! 0, path_parts_of u ! 1, branch, subfolder_path)))
   \<and> (3 < length (path_parts_of u) \<and> path_parts_of u ! 2 = ''tree'' \<longrightarrow>
        parse_github_url u
          = Inr (path_parts_of u ! 0, path_parts_of u ! 1, path_parts_of u ! 3,
                 if length (path_parts_of u) = 4 then None
                 else Some (join ''/'' (drop 4 (path_parts_of u)))))
   \<and> (2 \<le> length (path_parts_of u)
        \<and> \<not> (3 < length (path_parts_of u) \<and> path_parts_of u ! 2 = ''tree'') \<longrightarrow>
        parse_github_url u = Inr (path_parts_of u ! 0, path_parts_of u ! 1, ''main'', None))"
  by (auto simp: parse_github_url_def Let_def)

theorem parse_github_url_resolves_witness:
  "length (path_parts_of ''/smerchek'') < 2
   \<and> parse_github_url ''/smerchek'' = Inl ValueError
   \<and> 3 < length (path_parts_of ''/obra/superpowers/tree/main/skills/brainstorming'')
   \<and> path_parts_of ''/obra/superpowers/tree/main/skills/brainstorming'' ! 2 = ''tree''
   \<and> parse_github_url ''/obra/superpowers/tree/main/skills/brainstorming''
        = Inr (''obra'', ''superpowers'', ''main'', Some ''skills/brainstorming'')
   \<and> 2 \<le> length (path_parts_of ''/smerchek/claude-epub-skill'')
   \<and> parse_github_url ''/smerchek/claude-epub-skill''
        = Inr (''smerchek'', ''claude-epub-skill'', ''main'', None)"
  using parse_github_url_resolves [of "''/smerchek''"]
    parse_github_url_resolves [of "''/obra/superpowers/tree/main/skills/brainstorming''"]
    parse_github_url_resolves [of "''/smerchek/claude-epub-skill''"]
  by (simp add: path_parts_of_def)


section \<open>Properties of the content extractor\<close>

text \<open>The substring test of the model is the substring relation on strings.\<close>

lemma startswith_iff: "startswith s pat \<longleftrightarrow> (\<exists>suf. s = pat @ suf)"
  by (induction s pat rule: startswith.induct) auto

lemma contains_iff: "contains s pat \<longleftrightarrow> (\<exists>pre suf. s = pre @ pat @ suf)"
proof (induction s)
  case Nil
  then show ?case by auto
next
  case (Cons x xs)
  show ?case
  proof
    assume "contains (x # xs) pat"
    then consider "startswith (x # xs) pat" | "contains xs pat" by auto
    then show "\<exists>pre suf. x # xs = pre @ pat @ suf"
    proof cases
      case 1
      then obtain suf where "x # xs = pat @ suf" by (auto simp: startswith_iff)
      then have "x # xs = [] @ pat @ suf" by simp
      then show ?thesis by blast
    next
      case 2
      then obtain pre suf where "xs = pre @ pat @ suf" using Cons.IH by auto
      then have "x # xs = (x # pre) @ pat @ suf" by simp
      then show ?thesis by blast
    qed
  next
    assume "\<exists>pre suf. x # xs = pre @ pat @ suf"
    then obtain pre suf where eq: "x # xs = pre @ pat @ suf" by blast
    show "contains (x # xs) pat"
    proof (cases pre)
      case Nil
      with eq have "startswith (x # xs) pat" by (auto simp: startswith_iff)
      then show ?thesis by simp
    next
      case (Cons y ys)
      with eq have "xs = ys @ pat @ suf" by simp
      then have "contains xs pat" using Cons.IH by blast
      then show ?thesis by simp
    qed
  qed
qed

text \<open>The outcome of the loop does not depend on what a subdirectory's traversal returns.\<close>

lemma directory_result_discarded:
  "fst (fetch_items path target_dir (DirItem item_name sub # rest))
     = fst (fetch_items path target_dir rest)"
  by (simp split: prod.splits)

text \<open>
  C8. Under the default exclude set a bytecode file outside a cache directory is
  extracted: the pattern \<open>*.pyc\<close> is tested as a substring, and no such path contains
  an asterisk.
\<close>

theorem bytecode_file_extracted:
  "fetch_standalone_repo default_exclude_patterns
     (Some [''skill-main'', ''skill-main/SKILL.md'', ''skill-main/tool.pyc'',
            ''skill-main/.git/config'', ''skill-main/__pycache__/tool.cpython-311.pyc''])
   = (True, [''SKILL.md'', ''tool.pyc''])"
  by (simp add: fetch_standalone_repo_def default_exclude_patterns_def extract_member_def
      should_exclude_def)

text \<open>
  C1. A listing failure and a download failure inside subdirectories do not reach the
  caller: the value returned by the recursive call is discarded and the strategy
  returns \<open>True\<close>.
\<close>

theorem nested_failure_reports_success:
  "fetch_subfolder ''skills/x'' ''tmp''
     (Listing [FileItem ''SKILL.md'' ''https://raw.host/o/r/main/skills/x/SKILL.md''
                 (Some ''body''),
               DirItem ''scripts'' ListingError,
               DirItem ''assets''
                 (Listing [FileItem ''logo.png''
                             ''https://raw.host/o/r/main/skills/x/assets/logo.png'' None])])
   = (True, [Throttle, Mkdir ''tmp'', ListingRequest ''skills/x'',
             Throttle, DownloadRequest ''https://raw.host/o/r/main/skills/x/SKILL.md'',
             WriteBytes ''tmp/SKILL.md'',
             Mkdir ''tmp/scripts'', ListingRequest ''skills/x/scripts'',
             Mkdir ''tmp/assets'', ListingRequest ''skills/x/assets'',
             Throttle, DownloadRequest ''https://raw.host/o/r/main/skills/x/assets/logo.png''])"
  by (simp add: fetch_subfolder_def)

text \<open>
  C4. The listing request for a subdirectory is issued with no throttle check since the
  previous quota-consuming request.
\<close>

theorem nested_listing_not_throttled:
  "snd (fetch_subfolder ''skills/x'' ''tmp'' (Listing [DirItem ''scripts'' (Listing [])]))
     = [Throttle, Mkdir ''tmp'', ListingRequest ''skills/x'',
        Mkdir ''tmp/scripts'', ListingRequest ''skills/x/scripts'']
   \<and> \<not> throttled False
         (snd (fetch_subfolder ''skills/x'' ''tmp'' (Listing [DirItem ''scripts'' (Listing [])])))"
  by (simp add: fetch_subfolder_def)


section \<open>Properties of the package validator\<close>

text \<open>No exception leaves the parser, and any non-empty manifest whose header does not
  parse passes validation.\<close>

lemma parse_skill_frontmatter_total: "\<exists>m. parse_skill_frontmatter md = Inr m"
  by (simp add: parse_skill_frontmatter_def split: sum.splits)

lemma parse_failure_accepted:
  assumes "frontmatter md = None" "st_size md \<noteq> 0"
  shows "valid (validate_skill (Some (Directory (Some md))))"
    and "errors (validate_skill (Some (Directory (Some md)))) = []"
    and "metadata (validate_skill (Some (Directory (Some md)))) = Some []"
  using assms
  by (simp_all add: validate_skill_def parse_skill_frontmatter_def frontmatter_load_def Let_def)

text \<open>
  C3. A manifest whose header fails to parse is accepted: the parser returns the empty
  dictionary instead of raising, so validation ends valid, with two warnings and empty
  metadata.
\<close>

theorem unparsable_header_accepted:
  "validate_skill (Some (Directory (Some \<lparr>frontmatter = None, st_size = 120\<rparr>)))
   = \<lparr>valid = True, errors = [], warnings = [MissingName, MissingDescription],
      metadata = Some []\<rparr>"
  by (simp add: validate_skill_def parse_skill_frontmatter_def frontmatter_load_def
      has_value_def truthy_def)


section \<open>Properties of the orchestrator\<close>

lemma fetch_skill_skip:
  "disk st (target_folder c) = Some node \<Longrightarrow>
   fetch_skill False dry_run fetcher c st
     = (True, st\<lparr>stats := (stats st)\<lparr>skipped := skipped (stats st) + 1\<rparr>\<rparr>)"
  by (simp add: fetch_skill_def)

lemma fetch_skill_keeps_existing:
  "disk st t = Some node \<Longrightarrow> disk (snd (fetch_skill False dry_run fetcher c st)) t = Some node"
  by (auto simp: fetch_skill_def Let_def split: prod.splits)

lemma process_skill_keeps_existing:
  "disk st t = Some node \<Longrightarrow>
   disk (snd (process_skill False dry_run fetcher (md, st) c)) t = Some node"
  using fetch_skill_keeps_existing[of st t node dry_run fetcher c]
  by (auto simp: process_skill_def Let_def split: prod.splits option.splits)

lemma process_skill_skipped:
  assumes "disk st (target_folder c) = Some node" "valid (validate_skill (Some node))"
  shows "fst (process_skill False dry_run fetcher (md, st) c)
           = AList.update (sid c)
               (normalize_skill_metadata c (metadata (validate_skill (Some node)))) md"
  using assms by (simp add: process_skill_def fetch_skill_skip Let_def)

lemma process_skill_other_id:
  "sid c' \<noteq> k \<Longrightarrow>
   map_of (fst (process_skill force dry_run fetcher (md, st) c')) k = map_of md k"
  by (auto simp: process_skill_def Let_def update_conv' split: prod.splits option.splits)

lemma foldl_process_other_ids:
  "k \<notin> sid ` set skills \<Longrightarrow>
   map_of (fst (foldl (process_skill force dry_run fetcher) acc skills)) k = map_of (fst acc) k"
proof (induction skills arbitrary: acc)
  case Nil
  then show ?case by simp
next
  case (Cons c' skills)
  obtain md st where acc: "acc = (md, st)" by (cases acc)
  from Cons.prems have "sid c' \<noteq> k" "k \<notin> sid ` set skills" by auto
  then show ?case
    using Cons.IH[of "process_skill force dry_run fetcher acc c'"]
      process_skill_other_id[of c' k force dry_run fetcher md st]
    by (simp add: acc)
qed

lemma foldl_process_keeps_existing:
  "disk (snd acc) t = Some node \<Longrightarrow>
   disk (snd (foldl (process_skill False dry_run fetcher) acc skills)) t = Some node"
proof (induction skills arbitrary: acc)
  case Nil
  then show ?case by simp
next
  case (Cons c' skills)
  obtain md st where acc: "acc = (md, st)" by (cases acc)
  show ?case
    using Cons.IH[of "process_skill False dry_run fetcher acc c'"]
      process_skill_keeps_existing[of st t node dry_run fetcher md c'] Cons.prems
    by (simp add: acc)
qed

lemma foldl_process_skipped:
  assumes "c \<in> set skills" "distinct (map sid skills)"
    "disk (snd acc) (target_folder c) = Some node" "valid (validate_skill (Some node))"
  shows "map_of (fst (foldl (process_skill False dry_run fetcher) acc skills)) (sid c)
           = Some (normalize_skill_metadata c (metadata (validate_skill (Some node))))"
  using assms
proof (induction skills arbitrary: acc)
  case Nil
  then show ?case by simp
next
  case (Cons c' skills)
  obtain md st where acc: "acc = (md, st)" by (cases acc)
  let ?acc' = "process_skill False dry_run fetcher acc c'"
  show ?case
  proof (cases "c = c'")
    case True
    from Cons.prems have fresh: "sid c \<notin> sid ` set skills" using True by auto
    have "map_of (fst ?acc') (sid c)
            = Some (normalize_skill_metadata c (metadata (validate_skill (Some node))))"
      using process_skill_skipped[of st c node dry_run fetcher md] Cons.prems(3,4) True
      by (simp add: acc update_conv')
    then show ?thesis
      using foldl_process_other_ids[OF fresh, of False dry_run fetcher ?acc'] by simp
  next
    case False
    with Cons.prems have in_tl: "c \<in> set skills" and d: "distinct (map sid skills)" by auto
    have "disk (snd ?acc') (target_folder c) = Some node"
      using process_skill_keeps_existing[of st "target_folder c" node dry_run fetcher md c']
        Cons.prems(3) by (simp add: acc)
    from Cons.IH[OF in_tl d this Cons.prems(4)] show ?thesis by simp
  qed
qed

lemma process_skill_state:
  "snd (process_skill force dry_run fetcher (md, st) c)
     = snd (fetch_skill force dry_run fetcher c st)"
  by (simp add: process_skill_def Let_def split: prod.splits option.splits)

lemma fetch_skill_fresh:
  assumes "disk st (target_folder c) = None" "fetcher c = (True, staged)"
    "valid (validate_skill (Some (Directory staged)))"
  shows "fetch_skill False False fetcher c st
           = (True, st\<lparr>disk := (disk st)(target_folder c \<mapsto> Directory staged),
                       stats := (stats st)\<lparr>successful := successful (stats st) + 1\<rparr>\<rparr>)"
  using assms by (simp add: fetch_skill_def)

text \<open>
  C2, as the specification states it, fails in the scenario: \<open>run\<close> stops at the conflict
  check with exit code 1 and untouched statistics, and \<open>fetch_all_skills\<close> on the same
  batch counts the skipped package under \<open>skipped\<close>, so \<open>successful\<close> is 1, not 2.
\<close>

theorem existing_target_run_counterexample:
  "disk scenario_state (target_folder alpha_config) = Some (Directory (Some alpha_manifest))
   \<and> disk scenario_state (target_folder beta_config) = None
   \<and> scenario_github beta_config = (True, Some beta_manifest)
   \<and> valid (validate_skill (Some (Directory (Some beta_manifest))))
   \<and> run False False scenario_github [alpha_config, beta_config] None scenario_state
       = (1, None, scenario_state)
   \<and> stats scenario_state
       = \<lparr>total = 0, successful = 0, failed = 0, skipped = 0, error_log = []\<rparr>
   \<and> successful (stats (snd (fetch_all_skills False False scenario_github
         [alpha_config, beta_config] scenario_state))) \<noteq> 2"
  by (simp add: scenario_state_def scenario_github_def alpha_config_def beta_config_def
      alpha_manifest_def beta_manifest_def initial_stats_def run_def check_conflicts_def
      fetch_all_skills_def process_skill_def fetch_skill_def validate_skill_def
      parse_skill_frontmatter_def frontmatter_load_def has_value_def truthy_def)

text \<open>
  C2, amended. Let the configuration list two packages \<open>a\<close> and \<open>b\<close>, the target folder of
  \<open>a\<close> exist and that of \<open>b\<close> not, force be off, and \<open>b\<close> fetch and validate cleanly.
  Then \<open>run\<close> ends at the conflict check with exit code 1, no registry update and the
  state unchanged. When \<open>fetch_all_skills\<close> processes the batch, \<open>a\<close> is skipped and its
  folder left as it is, \<open>b\<close> is moved into its target, and the statistics are total 2,
  successful 1, skipped 1, failed 0.
\<close>

theorem existing_target_run:
  assumes "disk st (target_folder a) = Some node"
    and "disk st (target_folder b) = None"
    and "fetcher b = (True, staged)"
    and "valid (validate_skill (Some (Directory staged)))"
    and "stats st = initial_stats"
  shows "run False False fetcher [a, b] None st = (1, None, st)
         \<and> stats (snd (fetch_all_skills False False fetcher [a, b] st))
             = \<lparr>total = 2, successful = 1, failed = 0, skipped = 1, error_log = []\<rparr>
         \<and> disk (snd (fetch_all_skills False False fetcher [a, b] st)) (target_folder a)
             = Some node
         \<and> disk (snd (fetch_all_skills False False fetcher [a, b] st)) (target_folder b)
             = Some (Directory staged)"
proof -
  from assms(1,2) have ne: "target_folder a \<noteq> target_folder b" by auto
  have r: "run False False fetcher [a, b] None st = (1, None, st)"
    using assms(1) by (simp add: run_def check_conflicts_def)
  define s1 where "s1 = st\<lparr>stats := (stats st)\<lparr>total := length [a, b]\<rparr>\<rparr>"
  define s2 where "s2 = s1\<lparr>stats := (stats s1)\<lparr>skipped := skipped (stats s1) + 1\<rparr>\<rparr>"
  define s3 where "s3 = s2\<lparr>disk := (disk s2)(target_folder b \<mapsto> Directory staged),
                          stats := (stats s2)\<lparr>successful := successful (stats s2) + 1\<rparr>\<rparr>"
  have "disk s1 (target_folder a) = Some node" using assms(1) by (simp add: s1_def)
  then have fa: "fetch_skill False False fetcher a s1 = (True, s2)"
    unfolding s2_def by (rule fetch_skill_skip)
  have "disk s2 (target_folder b) = None" using assms(2) by (simp add: s1_def s2_def)
  then have fb: "fetch_skill False False fetcher b s2 = (True, s3)"
    unfolding s3_def using assms(3,4) by (rule fetch_skill_fresh)
  obtain md1 where p1: "process_skill False False fetcher ([], s1) a = (md1, s2)"
    using process_skill_state[of False False fetcher "[]" s1 a] fa
    by (cases "process_skill False False fetcher ([], s1) a") simp
  have p2: "snd (process_skill False False fetcher (md1, s2) b) = s3"
    using process_skill_state[of False False fetcher md1 s2 b] fb by simp
  have "snd (fetch_all_skills False False fetcher [a, b] st) = s3"
    unfolding fetch_all_skills_def s1_def[symmetric] by (simp add: p1 p2)
  moreover have "stats s3 = \<lparr>total = 2, successful = 1, failed = 0, skipped = 1, error_log = []\<rparr>"
    using assms(5) by (simp add: s3_def s2_def s1_def initial_stats_def)
  moreover have "disk s3 (target_folder a) = Some node"
    using assms(1) ne by (simp add: s3_def s2_def s1_def)
  moreover have "disk s3 (target_folder b) = Some (Directory staged)"
    by (simp add: s3_def)
  ultimately show ?thesis using r by simp
qed

theorem existing_target_run_witness:
  "disk scenario_state (target_folder alpha_config) = Some (Directory (Some alpha_manifest))
   \<and> disk scenario_state (target_folder beta_config) = None
   \<and> scenario_github beta_config = (True, Some beta_manifest)
   \<and> valid (validate_skill (Some (Directory (Some beta_manifest))))
   \<and> stats scenario_state = initial_stats
   \<and> run False False scenario_github [alpha_config, beta_config] None scenario_state
       = (1, None, scenario_state)
   \<and> stats (snd (fetch_all_skills False False scenario_github
         [alpha_config, beta_config] scenario_state))
       = \<lparr>total = 2, successful = 1, failed = 0, skipped = 1, error_log = []\<rparr>"
proof -
  have h1: "disk scenario_state (target_folder alpha_config)
              = Some (Directory (Some alpha_manifest))"
    by (simp add: scenario_state_def alpha_config_def)
  have h2: "disk scenario_state (target_folder beta_config) = None"
    by (simp add: scenario_state_def beta_config_def)
  have h3: "scenario_github beta_config = (True, Some beta_manifest)"
    by (simp add: scenario_github_def)
  have h4: "valid (validate_skill (Some (Directory (Some beta_manifest))))"
    by (simp add: validate_skill_def parse_skill_frontmatter_def frontmatter_load_def
        beta_manifest_def)
  have h5: "stats scenario_state = initial_stats"
    by (simp add: scenario_state_def)
  show ?thesis
    using h1 h2 h3 h4 h5
      existing_target_run [where st = scenario_state and a = alpha_config
        and b = beta_config and fetcher = scenario_github
        and node = "Directory (Some alpha_manifest)" and staged = "Some beta_manifest"]
    by simp
qed

text \<open>On a batch handed directly to \<open>fetch_all_skills\<close>, a package whose folder exists
  from the start is skipped, validated in place and entered in the returned batch.\<close>

lemma fetch_all_skills_skipped_existing:
  assumes "c \<in> set skills" "distinct (map sid skills)"
    "disk st (target_folder c) = Some node" "valid (validate_skill (Some node))"
  shows "fetch_skill False dry_run fetcher c st
           = (True, st\<lparr>stats := (stats st)\<lparr>skipped := skipped (stats st) + 1\<rparr>\<rparr>)
         \<and> fst (process_skill False dry_run fetcher (skill_metadata, st) c)
             = AList.update (sid c)
                 (normalize_skill_metadata c (metadata (validate_skill (Some node))))
                 skill_metadata
         \<and> map_of (fst (fetch_all_skills False dry_run fetcher skills st)) (sid c)
             = Some (normalize_skill_metadata c (metadata (validate_skill (Some node))))
         \<and> disk (snd (fetch_all_skills False dry_run fetcher skills st)) (target_folder c)
             = Some node"
proof -
  let ?st0 = "st\<lparr>stats := (stats st)\<lparr>total := length skills\<rparr>\<rparr>"
  have d0: "disk (snd ([] :: (string \<times> skill_meta) list, ?st0)) (target_folder c) = Some node"
    using assms(3) by simp
  show ?thesis
    unfolding fetch_all_skills_def
    using fetch_skill_skip[OF assms(3), of dry_run fetcher]
      process_skill_skipped[OF assms(3,4), of dry_run fetcher skill_metadata]
      foldl_process_skipped[OF assms(1,2) d0 assms(4), of dry_run fetcher]
      foldl_process_keeps_existing[OF d0, of dry_run fetcher skills]
    by simp
qed



lemma run_conflict_gate:
  "s \<in> set skills \<Longrightarrow> disk st (target_folder s) \<noteq> None \<Longrightarrow>
   run False dry_run fetcher skills None st = (1, None, st)"
  by (auto simp: run_def check_conflicts_def filter_empty_conv)




end
